theory Spec2Isabelle
  imports Main "HOL-Library.Word"
begin

unbundle bit_operations_syntax

section \<open>Machine types\<close>

text \<open>
  \<^verbatim>\<open>int\<close> is a 32-bit word read as two's complement (\<open>sint\<close>), \<^verbatim>\<open>uint8_t\<close> an 8-bit
  word, \<^verbatim>\<open>asUINT\<close> an unsigned 32-bit word. \<^verbatim>\<open>size_t\<close> is a word of any width
  (\<open>'w word\<close>), the width being the platform's.

  A \<^verbatim>\<open>void *\<close> is a block-based pointer: the null pointer, an address in the memory
  the script runtime owns, or the start of a byte buffer the debugger allocated
  itself (\<^verbatim>\<open>std::unique_ptr<uint8_t[]>\<close>), named by its allocation number. Two
  different allocations never overlap.
\<close>

type_synonym c_int = "32 word"
type_synonym uint8_t = "8 word"
type_synonym asUINT = "32 word"

datatype pointer = nullptr | RuntimePtr nat | StackMemoryPtr nat

section \<open>as_debugger.h: hashing\<close>

text \<open>
  \<^verbatim>\<open>seed ^= hasher(v) + 0x9e3779b9 + (seed<<6) + (seed>>2);\<close>
  The \<^verbatim>\<open>std::hash<T>\<close> the template instantiates is implementation-defined and is
  a parameter.
\<close>

definition asIDBHashCombine :: "('a \<Rightarrow> 'w::len word) \<Rightarrow> 'w word \<Rightarrow> 'a \<Rightarrow> 'w word" where
  "asIDBHashCombine hasher seed v =
     seed XOR (hasher v + 0x9e3779b9 + push_bit 6 seed + drop_bit 2 seed)"

section \<open>as_debugger.h: the value model\<close>

datatype asIDBExpandType = Expand_None | Expand_Value | Expand_Children | Expand_Entries

record asIDBVarAddr =
  typeId :: c_int
  address :: pointer

text \<open>\<^verbatim>\<open>asIDBVarAddr::operator==\<close>\<close>

definition asIDBVarAddr_eq :: "asIDBVarAddr \<Rightarrow> asIDBVarAddr \<Rightarrow> bool" where
  "asIDBVarAddr_eq a other \<longleftrightarrow> typeId a = typeId other \<and> address a = address other"

text \<open>
  \<^verbatim>\<open>std::hash<asIDBVarAddr>\<close>: the second argument of \<^verbatim>\<open>asIDBHashCombine\<close> is already a
  \<^verbatim>\<open>size_t\<close>, so the template hashes it once more with \<^verbatim>\<open>std::hash<size_t>\<close>.
\<close>

definition hash_asIDBVarAddr ::
  "(c_int \<Rightarrow> 'w::len word) \<Rightarrow> (pointer \<Rightarrow> 'w word) \<Rightarrow> ('w word \<Rightarrow> 'w word) \<Rightarrow> asIDBVarAddr \<Rightarrow> 'w word" where
  "hash_asIDBVarAddr hash_int hash_ptr hash_size key =
     asIDBHashCombine hash_size (hash_int (typeId key)) (hash_ptr (address key))"

text \<open>
  \<^verbatim>\<open>asIDBVarView\<close>. The field \<^verbatim>\<open>var\<close> is an iterator into the \<^verbatim>\<open>asIDBVarMap\<close>; an
  iterator of a \<^verbatim>\<open>std::unordered_map\<close> designates the one node that holds a key, so
  it is modelled by that key.
\<close>

record asIDBVarView =
  name :: string
  type :: string
  var :: asIDBVarAddr

text \<open>\<^verbatim>\<open>asIDBVarValue\<close>; its field \<^verbatim>\<open>value\<close> is \<open>value_string\<close> here.\<close>

record asIDBVarValue =
  disabled :: bool
  expandable :: asIDBExpandType
  value_string :: string

text \<open>
  \<^verbatim>\<open>asIDBVarState\<close>; its field \<^verbatim>\<open>value\<close> is \<open>state_value\<close> here. \<^verbatim>\<open>stackMemory\<close> is a
  \<^verbatim>\<open>std::unique_ptr<uint8_t[]>\<close>: \<open>None\<close> when null, otherwise the bytes of the
  buffer the state owns.
\<close>

record asIDBVarState =
  state_value :: asIDBVarValue
  stackMemory :: "uint8_t list option"
  queriedChildren :: bool
  children :: "asIDBVarView list"
  entries :: "asIDBVarValue list"

text \<open>The default member initialisers of \<^verbatim>\<open>asIDBVarValue\<close> and \<^verbatim>\<open>asIDBVarState\<close>.\<close>

definition asIDBVarValue_default :: asIDBVarValue where
  "asIDBVarValue_default = \<lparr>disabled = False, expandable = Expand_None, value_string = ''''\<rparr>"

definition asIDBVarState_default :: asIDBVarState where
  "asIDBVarState_default =
     \<lparr>state_value = asIDBVarValue_default, stackMemory = None, queriedChildren = False,
      children = [], entries = []\<rparr>"

datatype asIDBLocalType = Parameter | Variable | Temporary

text \<open>\<^verbatim>\<open>asIDBLocalKey\<close>; its field \<^verbatim>\<open>type\<close> is \<open>local_type\<close> here.\<close>

record asIDBLocalKey =
  offset :: uint8_t
  local_type :: asIDBLocalType

text \<open>
  The constructor \<^verbatim>\<open>asIDBLocalKey(int offset, asIDBLocalType type)\<close>: the member
  initialiser \<^verbatim>\<open>offset(offset)\<close> converts the \<^verbatim>\<open>int\<close> to \<^verbatim>\<open>uint8_t\<close>.
\<close>

definition asIDBLocalKey_init :: "c_int \<Rightarrow> asIDBLocalType \<Rightarrow> asIDBLocalKey" where
  "asIDBLocalKey_init off t = \<lparr>offset = ucast off, local_type = t\<rparr>"

text \<open>\<^verbatim>\<open>asIDBLocalKey::operator==\<close>\<close>

definition asIDBLocalKey_eq :: "asIDBLocalKey \<Rightarrow> asIDBLocalKey \<Rightarrow> bool" where
  "asIDBLocalKey_eq a k \<longleftrightarrow> offset a = offset k \<and> local_type a = local_type k"

text \<open>\<^verbatim>\<open>std::hash<asIDBLocalKey>\<close>\<close>

definition hash_asIDBLocalKey ::
  "(uint8_t \<Rightarrow> 'w::len word) \<Rightarrow> (asIDBLocalType \<Rightarrow> 'w word) \<Rightarrow> ('w word \<Rightarrow> 'w word) \<Rightarrow> asIDBLocalKey \<Rightarrow> 'w word" where
  "hash_asIDBLocalKey hash_u8 hash_local_type hash_size key =
     asIDBHashCombine hash_size (hash_u8 (offset key)) (hash_local_type (local_type key))"

section \<open>as_debugger.h: the cache\<close>

text \<open>
  \<^verbatim>\<open>asIDBCache\<close>, with the fields the development reads: the context pointer, the
  states by type and address, the globals and their flag, the locals by key, and
  the watch list with its pending removal. \<^verbatim>\<open>ctx\<close> is a pointer to the runtime's
  context, modelled by the number of the context. \<^verbatim>\<open>removeFromWatch\<close> is an iterator
  into \<^verbatim>\<open>watch\<close>, modelled by its position; \<^verbatim>\<open>watch.end()\<close> is \<open>length (watch c)\<close>.
\<close>

record asIDBCache =
  ctx :: nat
  var_states :: "asIDBVarAddr \<rightharpoonup> asIDBVarState"
  globalsCached :: bool
  globals :: "asIDBVarView list"
  locals :: "asIDBLocalKey \<rightharpoonup> asIDBVarView list"
  watch :: "asIDBVarView list"
  removeFromWatch :: nat

text \<open>
  \<^verbatim>\<open>asIDBCache::AddVarState\<close>: \<^verbatim>\<open>try_emplace\<close> default-constructs a state under \<^verbatim>\<open>id\<close>
  (\<open>vid\<close> here) when the map has none and leaves the map alone otherwise. The result is the
  cache after the call, the iterator returned and the value of \<^verbatim>\<open>exists\<close>.
\<close>

definition AddVarState :: "asIDBCache \<Rightarrow> asIDBVarAddr \<Rightarrow> asIDBCache \<times> asIDBVarAddr \<times> bool" where
  "AddVarState c vid =
     (case var_states c vid of
        None \<Rightarrow> (c\<lparr>var_states := (var_states c)(vid \<mapsto> asIDBVarState_default)\<rparr>, vid, False)
      | Some s \<Rightarrow> (c, vid, True))"

section \<open>angelscript.h: the execution context\<close>

text \<open>
  The runtime's \<^verbatim>\<open>asIScriptContext\<close> as far as the cache touches it: its reference
  count and whether a line callback is registered. \<^verbatim>\<open>AddRef\<close>, \<^verbatim>\<open>Release\<close> and
  \<^verbatim>\<open>ClearLineCallback\<close> are the runtime's own methods with the meaning its header
  documents: one reference more, one reference less, no callback. The contexts
  of the runtime are a store from context numbers to contexts.
\<close>

record asIScriptContext =
  refCount :: int
  lineCallback :: bool

type_synonym contexts = "nat \<Rightarrow> asIScriptContext"

definition AddRef :: "asIScriptContext \<Rightarrow> asIScriptContext" where
  "AddRef x = x\<lparr>refCount := refCount x + 1\<rparr>"

definition Release :: "asIScriptContext \<Rightarrow> asIScriptContext" where
  "Release x = x\<lparr>refCount := refCount x - 1\<rparr>"

definition ClearLineCallback :: "asIScriptContext \<Rightarrow> asIScriptContext" where
  "ClearLineCallback x = x\<lparr>lineCallback := False\<rparr>"

text \<open>
  \<^verbatim>\<open>asIDBCache::asIDBCache(asIScriptContext *ctx)\<close>: the members take their default
  initialisers and the body calls \<^verbatim>\<open>ctx->AddRef()\<close>.
\<close>

definition asIDBCache_ctor :: "nat \<Rightarrow> contexts \<Rightarrow> asIDBCache \<times> contexts" where
  "asIDBCache_ctor p rt =
     (\<lparr>ctx = p, var_states = Map.empty, globalsCached = False, globals = [],
       locals = Map.empty, watch = [], removeFromWatch = 0\<rparr>,
      rt(p := AddRef (rt p)))"

text \<open>
  \<^verbatim>\<open>asIDBCache::~asIDBCache()\<close>: \<^verbatim>\<open>ctx->ClearLineCallback(); ctx->Release();\<close>
\<close>

definition asIDBCache_dtor :: "asIDBCache \<Rightarrow> contexts \<Rightarrow> contexts" where
  "asIDBCache_dtor c rt = rt(ctx c := Release (ClearLineCallback (rt (ctx c))))"

section \<open>as_debugger_imgui.cpp: the variable rows\<close>

text \<open>
  Modelled from the spec: the body of \<^verbatim>\<open>asIDBVarView::operator==\<close> is not in the
  sources (the header only declares it). The spec: "Equality is by
  (displayName, referenced state identity)".
\<close>

definition asIDBVarView_eq :: "asIDBVarView \<Rightarrow> asIDBVarView \<Rightarrow> bool" where
  "asIDBVarView_eq a other \<longleftrightarrow> name a = name other \<and> var a = var other"

text \<open>
  \<^verbatim>\<open>std::find(first, last, value)\<close> over a vector, as the position of the first
  element \<^verbatim>\<open>e\<close> with \<^verbatim>\<open>e == value\<close>; the length of the vector (\<^verbatim>\<open>last\<close>) when there is
  none. \<^verbatim>\<open>vector::erase(pos)\<close> removes the element at one position.
\<close>

fun std_find :: "('a \<Rightarrow> 'a \<Rightarrow> bool) \<Rightarrow> 'a list \<Rightarrow> 'a \<Rightarrow> nat" where
  "std_find eq [] v = 0"
| "std_find eq (x # xs) v = (if eq x v then 0 else Suc (std_find eq xs v))"

definition erase :: "'a list \<Rightarrow> nat \<Rightarrow> 'a list" where
  "erase xs pos = take pos xs @ drop (Suc pos) xs"

text \<open>\<^verbatim>\<open>std::string::find(const char *) != npos\<close>: the name contains the filter text.\<close>

fun starts_with :: "string \<Rightarrow> string \<Rightarrow> bool" where
  "starts_with s [] = True"
| "starts_with [] (p # ps) = False"
| "starts_with (x # xs) (p # ps) = (x = p \<and> starts_with xs ps)"

fun string_find :: "string \<Rightarrow> string \<Rightarrow> bool" where
  "string_find [] p = (p = [])"
| "string_find (x # xs) p = (starts_with (x # xs) p \<or> string_find xs p)"

text \<open>
  What ImGui reports for one row while \<^verbatim>\<open>RenderDebuggerVariable\<close> draws it: the
  stored open state of the row's id (\<^verbatim>\<open>opened\<close>), the result of \<^verbatim>\<open>TreeNodeEx\<close>
  (\<^verbatim>\<open>open\<close>) and whether the row was right-clicked (\<^verbatim>\<open>IsItemClicked\<close>).
\<close>

record row_input =
  ui_opened :: bool
  ui_open :: bool
  ui_clicked :: bool

text \<open>
  \<^verbatim>\<open>RenderDebuggerVariable\<close>, the right-click block: in the watch window the view is
  looked for in the watch list; when \<^verbatim>\<open>removeFromWatch\<close> is \<^verbatim>\<open>watch.end()\<close> the view is
  appended and \<^verbatim>\<open>removeFromWatch\<close> is set to the new end.
\<close>

definition RenderDebuggerVariable_clicked :: "asIDBCache \<Rightarrow> asIDBVarView \<Rightarrow> bool \<Rightarrow> asIDBCache" where
  "RenderDebuggerVariable_clicked c varView in_watch =
     (let c1 = (if in_watch
                then c\<lparr>removeFromWatch := std_find asIDBVarView_eq (watch c) varView\<rparr>
                else c)
      in if removeFromWatch c1 = length (watch c1)
         then c1\<lparr>watch := watch c1 @ [varView], removeFromWatch := length (watch c1 @ [varView])\<rparr>
         else c1)"

text \<open>
  Modelled from the spec: \<^verbatim>\<open>asIDBCache::QueryVariableChildren\<close>, which the row calls,
  is not in the sources. The header on \<^verbatim>\<open>queriedChildren\<close>: "set when either children
  or entries have been queried already"; the spec: \<^verbatim>\<open>Expand\<close> "populates
  state.children or state.entries in place", "tracked by a queried flag on the
  state". The evaluator's \<^verbatim>\<open>Expand\<close> is the parameter \<open>expand\<close>.
\<close>

definition QueryVariableChildren ::
  "(asIDBCache \<Rightarrow> asIDBVarAddr \<Rightarrow> asIDBCache) \<Rightarrow> asIDBCache \<Rightarrow> asIDBVarAddr \<Rightarrow> asIDBCache" where
  "QueryVariableChildren expand c varIt =
     (let c1 = expand c varIt
      in case var_states c1 varIt of
           None \<Rightarrow> c1
         | Some s \<Rightarrow> c1\<lparr>var_states := (var_states c1)(varIt \<mapsto> s\<lparr>queriedChildren := True\<rparr>)\<rparr>)"

text \<open>
  \<^verbatim>\<open>RenderDebuggerVariable\<close>, the condition of the early return:
  \<^verbatim>\<open>!opened && filter && *filter && varView.name.find(filter) == std::string::npos\<close>.
  \<^verbatim>\<open>filter\<close> (\<open>filter'\<close> here) is a \<^verbatim>\<open>const char *\<close>, \<open>None\<close> when null.
\<close>

definition row_filtered :: "row_input \<Rightarrow> asIDBVarView \<Rightarrow> string option \<Rightarrow> bool" where
  "row_filtered ui varView filter' \<longleftrightarrow>
     \<not> ui_opened ui \<and>
     (case filter' of None \<Rightarrow> False | Some f \<Rightarrow> f \<noteq> [] \<and> \<not> string_find (name varView) f)"

text \<open>
  \<^verbatim>\<open>asIDBImGuiFrontend::RenderDebuggerVariable\<close>, what drawing one row does to the
  cache: the early return, the right-click block, and the query of the children
  of an open row. The view's iterator must designate a state of the map
  (\<^verbatim>\<open>auto &var = varIt->second\<close>); the result is \<open>None\<close> when it does not. The rows of
  the children are drawn by further calls of the same function, one per child,
  when the row is open.
\<close>

definition RenderDebuggerVariable ::
  "(asIDBCache \<Rightarrow> asIDBVarAddr \<Rightarrow> asIDBCache) \<Rightarrow> row_input \<Rightarrow> asIDBCache \<Rightarrow> asIDBVarView \<Rightarrow>
   string option \<Rightarrow> bool \<Rightarrow> asIDBCache option" where
  "RenderDebuggerVariable expand ui c varView filter' in_watch =
     (case var_states c (var varView) of
        None \<Rightarrow> None
      | Some v \<Rightarrow>
          if row_filtered ui varView filter' then Some c
          else
            let c1 = (if ui_clicked ui then RenderDebuggerVariable_clicked c varView in_watch else c)
            in if ui_open ui \<and> expandable (state_value v) = Expand_Children \<and> \<not> queriedChildren v
               then Some (QueryVariableChildren expand c1 (var varView))
               else Some c1)"

section \<open>as_debugger_imgui.cpp: the windows\<close>

text \<open>
  \<^verbatim>\<open>RenderWatch\<close>, the block after the rows: a pending removal is erased from the
  watch list and \<^verbatim>\<open>removeFromWatch\<close> is reset to the end of the list.
\<close>

definition RenderWatch_erase :: "asIDBCache \<Rightarrow> asIDBCache" where
  "RenderWatch_erase c =
     (if removeFromWatch c \<noteq> length (watch c)
      then c\<lparr>watch := erase (watch c) (removeFromWatch c),
             removeFromWatch := length (erase (watch c) (removeFromWatch c))\<rparr>
      else c)"

text \<open>
  A frame of the watch window in which the row of one view is right-clicked: the
  right-click block of the row, drawn with \<^verbatim>\<open>in_watch\<close> true, and then the block that
  ends \<^verbatim>\<open>RenderWatch\<close>.
\<close>

definition watch_remove :: "asIDBCache \<Rightarrow> asIDBVarView \<Rightarrow> asIDBCache" where
  "watch_remove c v = RenderWatch_erase (RenderDebuggerVariable_clicked c v True)"

text \<open>
  Modelled from the spec: the body of \<^verbatim>\<open>asIDBCache::CacheGlobals\<close> is not in the
  sources. The spec: it "populates the global view list exactly once per episode
  (guarded by a boolean; re-invocation is a no-op)"; \<^verbatim>\<open>AddOrGetState\<close>: "callers use
  alreadyExisted to avoid redundant evaluation". The global variables the runtime
  enumerates are the list \<open>gs\<close> of name, type name and address; \<open>evaluate\<close> is the
  evaluator map's \<^verbatim>\<open>Evaluate\<close>.
\<close>

definition CacheGlobals_add ::
  "(asIDBVarAddr \<Rightarrow> asIDBVarValue) \<Rightarrow> asIDBCache \<Rightarrow> string \<times> string \<times> asIDBVarAddr \<Rightarrow> asIDBCache" where
  "CacheGlobals_add evaluate c g =
     (case g of (n, t, a) \<Rightarrow>
        (case AddVarState c a of (c1, it, exists) \<Rightarrow>
           (let c2 = (if exists then c1
                      else c1\<lparr>var_states :=
                             (var_states c1)(it \<mapsto> asIDBVarState_default\<lparr>state_value := evaluate a\<rparr>)\<rparr>)
            in c2\<lparr>globals := globals c2 @ [\<lparr>name = n, type = t, var = it\<rparr>]\<rparr>)))"

text \<open>
  Modelled from the spec: \<^verbatim>\<open>asIDBCache::CacheGlobals\<close> itself, guarded by the flag and
  setting it once the globals are added.
\<close>

definition CacheGlobals ::
  "(asIDBVarAddr \<Rightarrow> asIDBVarValue) \<Rightarrow> (string \<times> string \<times> asIDBVarAddr) list \<Rightarrow> asIDBCache \<Rightarrow> asIDBCache" where
  "CacheGlobals evaluate gs c =
     (if globalsCached c then c
      else (foldl (CacheGlobals_add evaluate) c gs)\<lparr>globalsCached := True\<rparr>)"

text \<open>
  \<^verbatim>\<open>RenderGlobals\<close>, the part before the table:
  \<^verbatim>\<open>if (!cache->globalsCached) cache->CacheGlobals();\<close>
\<close>

definition RenderGlobals ::
  "(asIDBVarAddr \<Rightarrow> asIDBVarValue) \<Rightarrow> (string \<times> string \<times> asIDBVarAddr) list \<Rightarrow> asIDBCache \<Rightarrow> asIDBCache" where
  "RenderGlobals evaluate gs c = (if \<not> globalsCached c then CacheGlobals evaluate gs c else c)"

section \<open>The life of a cache\<close>

text \<open>
  The operations on a live cache whose code is in the sources: \<^verbatim>\<open>AddVarState\<close>, the
  right-click of a row and the erasure that ends \<^verbatim>\<open>RenderWatch\<close>. An episode
  constructs the cache on a context, runs a sequence of them and destroys the
  cache.
\<close>

datatype cache_op = Op_AddVarState asIDBVarAddr | Op_Clicked asIDBVarView bool | Op_Erase

fun apply_op :: "asIDBCache \<Rightarrow> cache_op \<Rightarrow> asIDBCache" where
  "apply_op c (Op_AddVarState a) = fst (AddVarState c a)"
| "apply_op c (Op_Clicked v in_watch) = RenderDebuggerVariable_clicked c v in_watch"
| "apply_op c Op_Erase = RenderWatch_erase c"

definition episode :: "nat \<Rightarrow> cache_op list \<Rightarrow> contexts \<Rightarrow> contexts" where
  "episode p ops rt =
     (case asIDBCache_ctor p rt of (c, rt1) \<Rightarrow> asIDBCache_dtor (foldl apply_op c ops) rt1)"

section \<open>as_debugger.h: breakpoints and the debugger\<close>

text \<open>
  \<^verbatim>\<open>asIDBBreakpointLocation\<close>; its fields \<^verbatim>\<open>section\<close> and \<^verbatim>\<open>line\<close> are \<open>bp_section\<close> and
  \<open>bp_line\<close> here. A \<^verbatim>\<open>std::string_view\<close> compares by content.
\<close>

record asIDBBreakpointLocation =
  bp_section :: string
  bp_line :: c_int

text \<open>
  \<^verbatim>\<open>asIDBBreakpoint\<close>: the \<^verbatim>\<open>std::variant\<close> of a location and a function name, built by
  the factories \<^verbatim>\<open>FileLocation\<close> and \<^verbatim>\<open>Function\<close>.
\<close>

datatype asIDBBreakpoint = FileLocation asIDBBreakpointLocation | Function string

datatype asIDBAction = Action_None | StepInto | StepOver | StepOut

text \<open>\<^verbatim>\<open>asIDBDebugger\<close>: the breakpoints are a \<^verbatim>\<open>std::unordered_set\<close>.\<close>

record asIDBDebugger =
  breakpoints :: "asIDBBreakpoint set"
  action :: asIDBAction
  stack_size :: asUINT
  cache :: "asIDBCache option"

text \<open>
  Modelled from the spec: the body of \<^verbatim>\<open>asIDBDebugger::ToggleBreakpoint\<close> is not in
  the sources. The spec: "Toggle(section, line) -> bool (returns whether it is now
  set): builds a SourceLocation key and flips membership"; "toggling inserts if
  absent, removes if present".
\<close>

definition ToggleBreakpoint :: "asIDBDebugger \<Rightarrow> string \<Rightarrow> c_int \<Rightarrow> bool \<times> asIDBDebugger" where
  "ToggleBreakpoint d sec ln =
     (let bp = FileLocation \<lparr>bp_section = sec, bp_line = ln\<rparr>
      in if bp \<in> breakpoints d
         then (False, d\<lparr>breakpoints := breakpoints d - {bp}\<rparr>)
         else (True, d\<lparr>breakpoints := insert bp (breakpoints d)\<rparr>))"

text \<open>
  What the hooked context reports when the line callback fires: the depth of its
  call stack, the section and line of the next instruction and, when the
  instruction is the entry of a function, the name of that function.
\<close>

record line_position =
  cur_depth :: asUINT
  cur_section :: string
  cur_line :: c_int
  cur_entered :: "string option"

datatype controller_state = Running | Suspended

text \<open>
  Modelled from the spec: the bodies of \<^verbatim>\<open>asIDBDebugger::LineCallback\<close> and
  \<^verbatim>\<open>asIDBDebugger::DebugBreak\<close> are not in the sources. The spec on matching: "break
  if a SourceLocation breakpoint with exactly that section and line exists, or if
  a FunctionName breakpoint matches the currently executing function's qualified
  name at function entry". On the callback: "unconditional break if action ==
  StepInto; break if action == StepOver and current stack depth <= recorded
  reference depth; break if action == StepOut and current stack depth < recorded
  reference depth; break if action == None and a breakpoint matches the current
  location"; "If no break condition holds, return immediately". On the break:
  "lazily construct the cache if absent", "then transition to Suspended".
\<close>

definition breakpoint_matches :: "asIDBDebugger \<Rightarrow> line_position \<Rightarrow> bool" where
  "breakpoint_matches d pos \<longleftrightarrow>
     FileLocation \<lparr>bp_section = cur_section pos, bp_line = cur_line pos\<rparr> \<in> breakpoints d \<or>
     (case cur_entered pos of None \<Rightarrow> False | Some f \<Rightarrow> Function f \<in> breakpoints d)"

text \<open>
  Modelled from the spec: the condition \<^verbatim>\<open>LineCallback\<close> evaluates, whose code is not
  in the sources; one case for each action, as the spec lists them. The depths are
  \<^verbatim>\<open>asUINT\<close> and compare unsigned.
\<close>

definition break_condition :: "asIDBDebugger \<Rightarrow> line_position \<Rightarrow> bool" where
  "break_condition d pos =
     (case action d of
        StepInto \<Rightarrow> True
      | StepOver \<Rightarrow> cur_depth pos \<le> stack_size d
      | StepOut \<Rightarrow> cur_depth pos < stack_size d
      | Action_None \<Rightarrow> breakpoint_matches d pos)"

text \<open>
  Modelled from the spec: \<^verbatim>\<open>asIDBDebugger::DebugBreak\<close>, whose body is not in the
  sources. The header: "Creates the cache and then suspends"; the spec: "lazily
  construct the cache if absent". The result is the state of the controller, the
  debugger and the contexts of the runtime.
\<close>

definition DebugBreak ::
  "asIDBDebugger \<Rightarrow> nat \<Rightarrow> contexts \<Rightarrow> controller_state \<times> asIDBDebugger \<times> contexts" where
  "DebugBreak d p rt =
     (case cache d of
        Some c \<Rightarrow> (Suspended, d, rt)
      | None \<Rightarrow> (case asIDBCache_ctor p rt of (c, rt1) \<Rightarrow> (Suspended, d\<lparr>cache := Some c\<rparr>, rt1)))"

text \<open>
  Modelled from the spec: \<^verbatim>\<open>asIDBDebugger::LineCallback\<close>, whose body is not in the
  sources: a break when the condition holds, an immediate return otherwise.
\<close>

definition LineCallback ::
  "asIDBDebugger \<Rightarrow> nat \<Rightarrow> contexts \<Rightarrow> line_position \<Rightarrow> controller_state \<times> asIDBDebugger \<times> contexts" where
  "LineCallback d p rt pos =
     (if break_condition d pos then DebugBreak d p rt else (Running, d, rt))"

section \<open>as_debugger.h: the evaluator map\<close>











section \<open>Temporaries\<close>

text \<open>
  The memory of the runtime, a byte at every address, and the bytes of a value of
  \<open>n\<close> bytes at an address.
\<close>

type_synonym memory = "nat \<Rightarrow> uint8_t"

definition read_bytes :: "memory \<Rightarrow> nat \<Rightarrow> nat \<Rightarrow> uint8_t list" where
  "read_bytes mem a n = map mem [a ..< a + n]"

text \<open>
  Modelled from the spec: the code that captures a temporary is not in the
  sources. The header on \<^verbatim>\<open>stackMemory\<close>: "if we're referring to a temporary value
  and not a handle we have to make a copy of the value here since it won't be
  available after the context is called". The spec: "the state must copy the bytes
  out at capture time"; "if a buffer is present, the reported address for that
  state points into the buffer, not into runtime memory". \<open>buf\<close> is the number of
  the buffer the allocator returns, \<open>src\<close> the runtime address of the temporary
  and \<open>n\<close> its size.
\<close>

definition CaptureTemporary ::
  "memory \<Rightarrow> asIDBCache \<Rightarrow> nat \<Rightarrow> c_int \<Rightarrow> nat \<Rightarrow> nat \<Rightarrow> asIDBCache \<times> asIDBVarAddr" where
  "CaptureTemporary mem c buf t src n =
     (case AddVarState c \<lparr>typeId = t, address = StackMemoryPtr buf\<rparr> of (c1, it, exists) \<Rightarrow>
        (case var_states c1 it of
           None \<Rightarrow> (c1, it)
         | Some s \<Rightarrow>
             (c1\<lparr>var_states := (var_states c1)(it \<mapsto> s\<lparr>stackMemory := Some (read_bytes mem src n)\<rparr>)\<rparr>,
              it)))"

text \<open>
  Modelled from the spec: what reading a value through a variable address finds,
  which the sources leave to the evaluators. The \<open>n\<close> bytes come from the memory of the
  runtime for a runtime address and from the buffer of the state the address belongs
  to for a buffer address. Nothing can be read through a null pointer or through
  a buffer address that no state owns.
\<close>

definition load_bytes :: "memory \<Rightarrow> asIDBCache \<Rightarrow> asIDBVarAddr \<Rightarrow> nat \<Rightarrow> uint8_t list option" where
  "load_bytes mem c vid n =
     (case address vid of
        nullptr \<Rightarrow> None
      | RuntimePtr a \<Rightarrow> Some (read_bytes mem a n)
      | StackMemoryPtr b \<Rightarrow>
          (case var_states c vid of
             None \<Rightarrow> None
           | Some s \<Rightarrow> (case stackMemory s of None \<Rightarrow> None | Some bytes \<Rightarrow> Some (take n bytes))))"

section \<open>Example values\<close>

text \<open>A cache just constructed on context 0, which one other owner references.\<close>

definition example_contexts :: contexts where
  "example_contexts = (\<lambda>_. \<lparr>refCount = 1, lineCallback = True\<rparr>)"

definition example_cache :: asIDBCache where
  "example_cache = fst (asIDBCache_ctor 0 example_contexts)"

definition example_addr :: asIDBVarAddr where
  "example_addr = \<lparr>typeId = 4, address = RuntimePtr 100\<rparr>"

text \<open>Two views of one global variable under different names, both watched.\<close>

definition example_view_x :: asIDBVarView where
  "example_view_x = \<lparr>name = ''x'', type = ''int'', var = example_addr\<rparr>"

definition example_view_globalX :: asIDBVarView where
  "example_view_globalX = \<lparr>name = ''globalX'', type = ''int'', var = example_addr\<rparr>"

definition example_watch_cache :: asIDBCache where
  "example_watch_cache =
     example_cache\<lparr>var_states := [example_addr \<mapsto> asIDBVarState_default],
                   watch := [example_view_x, example_view_globalX], removeFromWatch := 2\<rparr>"

text \<open>The global variables of a runtime, and an evaluator that shows every value as 7.\<close>

definition example_globals :: "(string \<times> string \<times> asIDBVarAddr) list" where
  "example_globals = [(''x'', ''int'', example_addr), (''globalX'', ''int'', example_addr)]"

definition example_evaluate :: "asIDBVarAddr \<Rightarrow> asIDBVarValue" where
  "example_evaluate a = \<lparr>disabled = False, expandable = Expand_None, value_string = ''7''\<rparr>"

text \<open>
  An object that has children to show and none yet, its row drawn open, and an
  \<^verbatim>\<open>Expand\<close> that finds no children and leaves a mark in the entries each time it
  runs.
\<close>

definition example_object :: asIDBVarAddr where
  "example_object = \<lparr>typeId = 0x04000005, address = RuntimePtr 200\<rparr>"

definition example_object_view :: asIDBVarView where
  "example_object_view = \<lparr>name = ''obj'', type = ''Empty'', var = example_object\<rparr>"

definition example_object_state :: asIDBVarState where
  "example_object_state =
     asIDBVarState_default
       \<lparr>state_value := \<lparr>disabled = False, expandable = Expand_Children, value_string = ''''\<rparr>\<rparr>"

definition example_object_cache :: asIDBCache where
  "example_object_cache = example_cache\<lparr>var_states := [example_object \<mapsto> example_object_state]\<rparr>"

definition example_expand :: "asIDBCache \<Rightarrow> asIDBVarAddr \<Rightarrow> asIDBCache" where
  "example_expand c a =
     (case var_states c a of
        None \<Rightarrow> c
      | Some s \<Rightarrow> c\<lparr>var_states := (var_states c)(a \<mapsto> s\<lparr>entries := entries s @ [asIDBVarValue_default]\<rparr>)\<rparr>)"

definition example_open_row :: row_input where
  "example_open_row = \<lparr>ui_opened = True, ui_open = True, ui_clicked = False\<rparr>"

text \<open>The cache of that object once its row has been drawn open.\<close>

definition example_expanded_cache :: asIDBCache where
  "example_expanded_cache =
     example_cache\<lparr>var_states :=
       [example_object \<mapsto> example_object_state\<lparr>entries := [asIDBVarValue_default],
                                                     queriedChildren := True\<rparr>]\<rparr>"

text \<open>
  A debugger stepping out from depth 3, with a breakpoint on line 10 of main.as,
  and the context at that line at depth 3.
\<close>

definition example_debugger :: asIDBDebugger where
  "example_debugger =
     \<lparr>breakpoints = {FileLocation \<lparr>bp_section = ''main.as'', bp_line = 10\<rparr>},
      action = StepOut, stack_size = 3, cache = None\<rparr>"

definition example_position :: line_position where
  "example_position =
     \<lparr>cur_depth = 3, cur_section = ''main.as'', cur_line = 10, cur_entered = None\<rparr>"






text \<open>A memory whose byte at every address is the address, and one of zeros.\<close>

definition example_memory :: memory where
  "example_memory a = of_nat a"

definition zero_memory :: memory where
  "zero_memory a = 0"

section \<open>Properties\<close>

subsection \<open>The line callback\<close>

text \<open>
  C1. With a context hooked and the controller running, the line callback
  suspends exactly when the action is StepInto; or it is StepOver and the depth of
  the call stack is at most the recorded depth; or it is StepOut and the depth is
  below the recorded depth; or there is no action and a breakpoint is registered
  for the current section and line or for the name of the function being entered.
  When it does not suspend it returns with the debugger and the contexts as they
  were; in particular StepOut at the recorded depth itself does not break.
\<close>

theorem LineCallback_breaks_iff:
  "(fst (LineCallback d p rt pos) = Suspended \<longleftrightarrow>
      action d = StepInto \<or>
      (action d = StepOver \<and> cur_depth pos \<le> stack_size d) \<or>
      (action d = StepOut \<and> cur_depth pos < stack_size d) \<or>
      (action d = Action_None \<and>
         (FileLocation \<lparr>bp_section = cur_section pos, bp_line = cur_line pos\<rparr> \<in> breakpoints d \<or>
          (\<exists>f. cur_entered pos = Some f \<and> Function f \<in> breakpoints d)))) \<and>
   (fst (LineCallback d p rt pos) \<noteq> Suspended \<longrightarrow> LineCallback d p rt pos = (Running, d, rt)) \<and>
   (action d = StepOut \<and> cur_depth pos = stack_size d \<longrightarrow> LineCallback d p rt pos = (Running, d, rt))"
proof -
  have suspends: "fst (DebugBreak d p rt) = Suspended"
    by (simp add: DebugBreak_def split: option.splits prod.splits)
  have result: "fst (LineCallback d p rt pos) = Suspended \<longleftrightarrow> break_condition d pos"
    using suspends by (simp add: LineCallback_def)
  have returns: "LineCallback d p rt pos = (Running, d, rt)" if "\<not> break_condition d pos"
    using that by (simp add: LineCallback_def)
  have matches: "breakpoint_matches d pos \<longleftrightarrow>
      FileLocation \<lparr>bp_section = cur_section pos, bp_line = cur_line pos\<rparr> \<in> breakpoints d \<or>
      (\<exists>f. cur_entered pos = Some f \<and> Function f \<in> breakpoints d)"
    by (auto simp: breakpoint_matches_def split: option.splits)
  have condition: "break_condition d pos \<longleftrightarrow>
      action d = StepInto \<or>
      (action d = StepOver \<and> cur_depth pos \<le> stack_size d) \<or>
      (action d = StepOut \<and> cur_depth pos < stack_size d) \<or>
      (action d = Action_None \<and> breakpoint_matches d pos)"
    by (cases "action d") (simp_all add: break_condition_def)
  have equal_depth: "\<not> break_condition d pos"
    if "action d = StepOut \<and> cur_depth pos = stack_size d"
    using that by (simp add: break_condition_def)
  show ?thesis
    using result returns condition matches equal_depth by metis
qed

theorem LineCallback_breaks_iff_witness:
  "action example_debugger = StepOut \<and>
   cur_depth example_position = stack_size example_debugger \<and>
   fst (LineCallback example_debugger 0 example_contexts example_position) \<noteq> Suspended \<and>
   LineCallback example_debugger 0 example_contexts example_position =
     (Running, example_debugger, example_contexts) \<and>
   fst (LineCallback (example_debugger\<lparr>action := Action_None\<rparr>) 0 example_contexts example_position) =
     Suspended"
proof -
  have out: "action example_debugger = StepOut \<and>
      cur_depth example_position = stack_size example_debugger"
    by (simp add: example_debugger_def example_position_def)
  have run: "LineCallback example_debugger 0 example_contexts example_position =
      (Running, example_debugger, example_contexts)"
    using out LineCallback_breaks_iff [of example_debugger 0 example_contexts example_position]
    by blast
  have bp: "action (example_debugger\<lparr>action := Action_None\<rparr>) = Action_None \<and>
      FileLocation \<lparr>bp_section = cur_section example_position, bp_line = cur_line example_position\<rparr>
        \<in> breakpoints (example_debugger\<lparr>action := Action_None\<rparr>)"
    by (simp add: example_debugger_def example_position_def)
  have sus: "fst (LineCallback (example_debugger\<lparr>action := Action_None\<rparr>) 0 example_contexts
      example_position) = Suspended"
    using bp LineCallback_breaks_iff [of "example_debugger\<lparr>action := Action_None\<rparr>" 0
        example_contexts example_position]
    by blast
  show ?thesis
    using out run sus by simp
qed

subsection \<open>The states by address\<close>

lemma asIDBVarAddr_eq_iff: "asIDBVarAddr_eq a b \<longleftrightarrow> a = b"
  by (cases a, cases b) (auto simp: asIDBVarAddr_eq_def)

text \<open>
  C2. Two calls of \<^verbatim>\<open>AddVarState\<close> in a row, on addresses \<open>a\<close> and \<open>b\<close>: the first
  reports \<^verbatim>\<open>exists\<close> exactly when the map already held a state for \<open>a\<close> (so it
  reports false on the first request for an address) and returns an iterator to a
  state of the map. The two iterators are the same exactly when \<open>a\<close> and \<open>b\<close> agree
  in type id and address (\<^verbatim>\<open>operator==\<close>); then the second call reports true,
  leaves the cache as the first call left it, finds the very state the first call
  returned, and the two addresses hash alike. The same holds later in the episode:
  on any cache that still holds a state for the address, the call returns that
  iterator with \<^verbatim>\<open>exists\<close> true and changes nothing.
\<close>

theorem AddVarState_same_state:
  assumes first: "AddVarState c a = (c1, it1, e1)"
    and second: "AddVarState c1 b = (c2, it2, e2)"
  shows "(e1 \<longleftrightarrow> var_states c a \<noteq> None) \<and>
     (\<exists>s. var_states c1 it1 = Some s) \<and>
     (it1 = it2 \<longleftrightarrow> asIDBVarAddr_eq a b) \<and>
     (asIDBVarAddr_eq a b \<longrightarrow>
        e2 \<and> c2 = c1 \<and> var_states c2 it2 = var_states c1 it1 \<and>
        hash_asIDBVarAddr hi hp hs a = hash_asIDBVarAddr hi hp hs b) \<and>
     (asIDBVarAddr_eq a b \<and> var_states c' a = Some s' \<longrightarrow> AddVarState c' b = (c', it1, True))"
proof -
  have again: "AddVarState k a = (k, a, True)" if "var_states k a \<noteq> None" for k
    using that by (auto simp: AddVarState_def)
  have it1: "it1 = a" and e1: "e1 \<longleftrightarrow> var_states c a \<noteq> None"
    and present: "var_states c1 a \<noteq> None"
    using first by (auto simp: AddVarState_def split: option.splits)
  have it2: "it2 = b"
    using second by (auto simp: AddVarState_def split: option.splits)
  have same: "e2 \<and> c2 = c1 \<and> var_states c2 it2 = var_states c1 it1 \<and>
      hash_asIDBVarAddr hi hp hs a = hash_asIDBVarAddr hi hp hs b"
    if "asIDBVarAddr_eq a b"
  proof -
    from that have "b = a" by (simp add: asIDBVarAddr_eq_iff)
    with second again [OF present] it1 show ?thesis by simp
  qed
  have later: "AddVarState c' b = (c', it1, True)"
    if "asIDBVarAddr_eq a b \<and> var_states c' a = Some s'"
    using that again [of c'] it1 by (auto simp: asIDBVarAddr_eq_iff)
  show ?thesis
    using e1 present it1 it2 same later by (auto simp: asIDBVarAddr_eq_iff)
qed

theorem AddVarState_same_state_witness:
  "AddVarState example_cache example_addr =
     (example_cache\<lparr>var_states := [example_addr \<mapsto> asIDBVarState_default]\<rparr>, example_addr, False) \<and>
   AddVarState (example_cache\<lparr>var_states := [example_addr \<mapsto> asIDBVarState_default]\<rparr>) example_addr =
     (example_cache\<lparr>var_states := [example_addr \<mapsto> asIDBVarState_default]\<rparr>, example_addr, True) \<and>
   asIDBVarAddr_eq example_addr example_addr \<and>
   var_states example_cache example_addr = None"
proof -
  let ?c1 = "example_cache\<lparr>var_states := [example_addr \<mapsto> asIDBVarState_default]\<rparr>"
  have h1: "AddVarState example_cache example_addr = (?c1, example_addr, False)"
    by (simp add: AddVarState_def example_cache_def asIDBCache_ctor_def)
  have h2: "AddVarState ?c1 example_addr = (?c1, example_addr, True)"
    by (simp add: AddVarState_def)
  have h3: "asIDBVarAddr_eq example_addr example_addr"
    by (simp add: asIDBVarAddr_eq_def)
  from AddVarState_same_state [OF h1 h2, where hi = "\<lambda>_. 0 :: 64 word" and hp = "\<lambda>_. 0"
      and hs = "\<lambda>h. h" and c' = ?c1 and s' = asIDBVarState_default] h1 h2 h3
  show ?thesis by simp
qed

subsection \<open>Breakpoints\<close>

text \<open>
  C3. \<^verbatim>\<open>ToggleBreakpoint\<close> on a section and a line returns true exactly when the
  breakpoint of that location is set after the call; the location is set after
  the call exactly when it was not set before; no other breakpoint changes; and a
  second call with the same section and line gives back the debugger as it was.
\<close>

theorem ToggleBreakpoint_flips:
  "(fst (ToggleBreakpoint d sec ln) \<longleftrightarrow>
      FileLocation \<lparr>bp_section = sec, bp_line = ln\<rparr> \<in> breakpoints (snd (ToggleBreakpoint d sec ln))) \<and>
   (FileLocation \<lparr>bp_section = sec, bp_line = ln\<rparr> \<in> breakpoints (snd (ToggleBreakpoint d sec ln)) \<longleftrightarrow>
      FileLocation \<lparr>bp_section = sec, bp_line = ln\<rparr> \<notin> breakpoints d) \<and>
   breakpoints (snd (ToggleBreakpoint d sec ln)) - {FileLocation \<lparr>bp_section = sec, bp_line = ln\<rparr>} =
     breakpoints d - {FileLocation \<lparr>bp_section = sec, bp_line = ln\<rparr>} \<and>
   snd (ToggleBreakpoint (snd (ToggleBreakpoint d sec ln)) sec ln) = d"
proof (cases "FileLocation \<lparr>bp_section = sec, bp_line = ln\<rparr> \<in> breakpoints d")
  case True
  then have removed: "ToggleBreakpoint d sec ln =
      (False, d\<lparr>breakpoints := breakpoints d - {FileLocation \<lparr>bp_section = sec, bp_line = ln\<rparr>}\<rparr>)"
    by (simp add: ToggleBreakpoint_def)
  have restored: "insert (FileLocation \<lparr>bp_section = sec, bp_line = ln\<rparr>) (breakpoints d) =
      breakpoints d"
    using True by (rule insert_absorb)
  show ?thesis
    using True by (simp add: removed) (simp add: ToggleBreakpoint_def restored)
next
  case False
  then have added: "ToggleBreakpoint d sec ln =
      (True, d\<lparr>breakpoints := insert (FileLocation \<lparr>bp_section = sec, bp_line = ln\<rparr>) (breakpoints d)\<rparr>)"
    by (simp add: ToggleBreakpoint_def)
  show ?thesis
    using False by (simp add: added) (simp add: ToggleBreakpoint_def)
qed

theorem ToggleBreakpoint_flips_witness:
  "ToggleBreakpoint example_debugger ''main.as'' 10 = (False, example_debugger\<lparr>breakpoints := {}\<rparr>) \<and>
   FileLocation \<lparr>bp_section = ''main.as'', bp_line = 10\<rparr> \<in> breakpoints example_debugger \<and>
   snd (ToggleBreakpoint (snd (ToggleBreakpoint example_debugger ''main.as'' 10)) ''main.as'' 10) =
     example_debugger"
  using ToggleBreakpoint_flips [of example_debugger "''main.as''" 10]
  by (simp add: example_debugger_def ToggleBreakpoint_def)

subsection \<open>Temporaries\<close>

lemma CaptureTemporary_result:
  "CaptureTemporary mem c buf t src n =
     (let vid = \<lparr>typeId = t, address = StackMemoryPtr buf\<rparr>;
          s = (case var_states c vid of None \<Rightarrow> asIDBVarState_default | Some s \<Rightarrow> s)
      in (c\<lparr>var_states := (var_states c)(vid \<mapsto> s\<lparr>stackMemory := Some (read_bytes mem src n)\<rparr>)\<rparr>, vid))"
  by (auto simp: CaptureTemporary_def AddVarState_def Let_def split: option.splits)

text \<open>
  C4. The state captured from a temporary owns a buffer holding the bytes the
  temporary had at the time of the capture. The address reported for the state is
  the buffer's, never an address of the runtime's memory. Reading the value
  through that address gives those bytes whatever the runtime's memory holds
  afterwards (\<open>mem'\<close> is any later memory), also after the state is requested
  again.
\<close>

theorem CaptureTemporary_private_buffer:
  "(case CaptureTemporary mem c buf t src n of (c1, vid) \<Rightarrow>
      address vid = StackMemoryPtr buf \<and>
      (\<forall>a. address vid \<noteq> RuntimePtr a) \<and>
      (\<exists>s. var_states c1 vid = Some s \<and> stackMemory s = Some (read_bytes mem src n)) \<and>
      length (read_bytes mem src n) = n \<and>
      load_bytes mem' c1 vid n = Some (read_bytes mem src n) \<and>
      load_bytes mem' (fst (AddVarState c1 vid)) vid n = Some (read_bytes mem src n))"
proof -
  obtain c1 vid where cap: "CaptureTemporary mem c buf t src n = (c1, vid)"
    by (cases "CaptureTemporary mem c buf t src n")
  then have vid: "vid = \<lparr>typeId = t, address = StackMemoryPtr buf\<rparr>"
    by (simp add: CaptureTemporary_result Let_def)
  from cap obtain s where s: "var_states c1 vid = Some s"
      "stackMemory s = Some (read_bytes mem src n)"
    by (auto simp: CaptureTemporary_result Let_def)
  have len: "length (read_bytes mem src n) = n"
    by (simp add: read_bytes_def)
  have rd: "load_bytes mem' c1 vid n = Some (read_bytes mem src n)"
    using s len by (simp add: load_bytes_def vid)
  have kept: "fst (AddVarState c1 vid) = c1"
    using s by (simp add: AddVarState_def)
  show ?thesis
    using cap vid s len rd kept by simp
qed

theorem CaptureTemporary_private_buffer_witness:
  "snd (CaptureTemporary example_memory example_cache 0 4 16 4) =
     \<lparr>typeId = 4, address = StackMemoryPtr 0\<rparr> \<and>
   read_bytes example_memory 16 4 = [16, 17, 18, 19] \<and>
   read_bytes zero_memory 16 4 = [0, 0, 0, 0] \<and>
   load_bytes zero_memory (fst (CaptureTemporary example_memory example_cache 0 4 16 4))
     \<lparr>typeId = 4, address = StackMemoryPtr 0\<rparr> 4 = Some [16, 17, 18, 19]"
proof -
  have r: "read_bytes example_memory 16 4 = [16, 17, 18, 19]"
    "read_bytes zero_memory 16 4 = [0, 0, 0, 0]"
    by (simp_all add: read_bytes_def example_memory_def zero_memory_def upt_rec)
  have s: "snd (CaptureTemporary example_memory example_cache 0 4 16 4) =
     \<lparr>typeId = 4, address = StackMemoryPtr 0\<rparr>"
    by (simp add: CaptureTemporary_def AddVarState_def example_cache_def asIDBCache_ctor_def)
  show ?thesis
    using CaptureTemporary_private_buffer
        [where mem = example_memory and c = example_cache and buf = 0 and t = 4 and src = 16
           and n = 4 and mem' = zero_memory] r s
    by (simp add: case_prod_beta)
qed

subsection \<open>The choice of the evaluator\<close>



















subsection \<open>The globals\<close>

lemma CacheGlobals_add_globals:
  "globals (CacheGlobals_add ev c g) =
     globals c @ [\<lparr>name = fst g, type = fst (snd g), var = snd (snd g)\<rparr>]"
  by (cases g) (auto simp: CacheGlobals_add_def AddVarState_def Let_def split: option.splits)

lemma foldl_CacheGlobals_add_globals:
  "globals (foldl (CacheGlobals_add ev) c gs) =
     globals c @ map (\<lambda>g. \<lparr>name = fst g, type = fst (snd g), var = snd (snd g)\<rparr>) gs"
  by (induction gs arbitrary: c) (simp_all add: CacheGlobals_add_globals)

text \<open>
  C6. After \<^verbatim>\<open>CacheGlobals\<close> the flag \<^verbatim>\<open>globalsCached\<close> is set. A further call, whatever
  the runtime would enumerate then, returns the cache unchanged, and so does any
  call on a cache whose flag is set. The first call, on a cache whose flag is
  clear, appends one view for each global variable of the runtime, in order.
  \<^verbatim>\<open>RenderGlobals\<close> calls \<^verbatim>\<open>CacheGlobals\<close> only while the flag is clear, so drawing the
  window again changes nothing.
\<close>

theorem CacheGlobals_once:
  "globalsCached (CacheGlobals ev gs c) \<and>
   CacheGlobals ev' gs' (CacheGlobals ev gs c) = CacheGlobals ev gs c \<and>
   (globalsCached c \<longrightarrow> CacheGlobals ev gs c = c) \<and>
   (\<not> globalsCached c \<longrightarrow>
      globals (CacheGlobals ev gs c) =
        globals c @ map (\<lambda>g. \<lparr>name = fst g, type = fst (snd g), var = snd (snd g)\<rparr>) gs) \<and>
   RenderGlobals ev gs c = (if globalsCached c then c else CacheGlobals ev gs c) \<and>
   RenderGlobals ev' gs' (RenderGlobals ev gs c) = RenderGlobals ev gs c"
proof -
  have noop: "CacheGlobals e g k = k" if "globalsCached k" for e g k
    using that by (simp add: CacheGlobals_def)
  have flag: "globalsCached (CacheGlobals ev gs c)"
    by (simp add: CacheGlobals_def)
  have filled: "globals (CacheGlobals ev gs c) =
      globals c @ map (\<lambda>g. \<lparr>name = fst g, type = fst (snd g), var = snd (snd g)\<rparr>) gs"
    if "\<not> globalsCached c"
    using that by (simp add: CacheGlobals_def foldl_CacheGlobals_add_globals)
  have render: "RenderGlobals e g k = (if globalsCached k then k else CacheGlobals e g k)" for e g k
    by (simp add: RenderGlobals_def)
  have "globalsCached (RenderGlobals ev gs c)"
    using flag by (simp add: render)
  then have again: "RenderGlobals ev' gs' (RenderGlobals ev gs c) = RenderGlobals ev gs c"
    by (simp add: render)
  show ?thesis
    using noop [OF flag] noop [of c] flag filled render again by simp
qed

theorem CacheGlobals_once_witness:
  "\<not> globalsCached example_cache \<and>
   globals (CacheGlobals example_evaluate example_globals example_cache) =
     [example_view_x, example_view_globalX] \<and>
   globalsCached (CacheGlobals example_evaluate example_globals example_cache) \<and>
   CacheGlobals example_evaluate example_globals
     (CacheGlobals example_evaluate example_globals example_cache) =
     CacheGlobals example_evaluate example_globals example_cache \<and>
   RenderGlobals example_evaluate example_globals
     (RenderGlobals example_evaluate example_globals example_cache) =
     CacheGlobals example_evaluate example_globals example_cache"
proof -
  have fresh: "\<not> globalsCached example_cache" "globals example_cache = []"
    by (simp_all add: example_cache_def asIDBCache_ctor_def)
  have views: "map (\<lambda>g. \<lparr>name = fst g, type = fst (snd g), var = snd (snd g)\<rparr>) example_globals =
      [example_view_x, example_view_globalX]"
    by (simp add: example_globals_def example_view_x_def example_view_globalX_def)
  show ?thesis
    using fresh views
      CacheGlobals_once [where ev = example_evaluate and gs = example_globals and c = example_cache
        and ev' = example_evaluate and gs' = example_globals]
      CacheGlobals_once [where ev = example_evaluate and gs = example_globals
        and c = "CacheGlobals example_evaluate example_globals example_cache"
        and ev' = example_evaluate and gs' = example_globals]
    by simp
qed

subsection \<open>Expanding a row\<close>

lemma clicked_var_states: "var_states (RenderDebuggerVariable_clicked c v w) = var_states c"
  by (simp add: RenderDebuggerVariable_clicked_def Let_def)

lemma row_queried:
  assumes "var_states c (var v) = Some s" "queriedChildren s"
  shows "RenderDebuggerVariable expand ui c v f w =
     Some (if row_filtered ui v f \<or> \<not> ui_clicked ui then c else RenderDebuggerVariable_clicked c v w)"
  using assms by (simp add: RenderDebuggerVariable_def)

lemma QueryVariableChildren_sets_flag:
  "var_states (QueryVariableChildren expand c it) it = Some s \<Longrightarrow> queriedChildren s"
  by (auto simp: QueryVariableChildren_def Let_def split: option.splits)

text \<open>
  C7. Drawing the row of a view whose state has \<^verbatim>\<open>queriedChildren\<close> set never
  expands: the result does not depend on the evaluator's \<^verbatim>\<open>Expand\<close> (\<open>expand'\<close> is
  any other), the states of the cache, with their children and entries, are what
  they were, and without a right-click the whole cache is. This holds whether or
  not the children list is empty. Drawing the open row of a state with children
  to show whose flag is clear queries the children once; if the state is still in
  the map, its flag is set afterwards, and no later drawing of the row changes
  the states.
\<close>

theorem queriedChildren_gates_expansion:
  "var_states c (var v) = Some s \<longrightarrow>
     (queriedChildren s \<longrightarrow>
        RenderDebuggerVariable expand ui c v f w = RenderDebuggerVariable expand' ui c v f w \<and>
        (\<exists>c1. RenderDebuggerVariable expand ui c v f w = Some c1 \<and> var_states c1 = var_states c) \<and>
        (\<not> ui_clicked ui \<longrightarrow> RenderDebuggerVariable expand ui c v f w = Some c)) \<and>
     (\<not> queriedChildren s \<and> \<not> row_filtered ui v f \<and> ui_open ui \<and>
      expandable (state_value s) = Expand_Children \<longrightarrow>
        RenderDebuggerVariable expand ui c v f w =
          Some (QueryVariableChildren expand
                 (if ui_clicked ui then RenderDebuggerVariable_clicked c v w else c) (var v)) \<and>
        (\<forall>c2 s2. RenderDebuggerVariable expand ui c v f w = Some c2 \<and> var_states c2 (var v) = Some s2 \<longrightarrow>
           queriedChildren s2 \<and>
           (\<exists>c3. RenderDebuggerVariable expand' ui' c2 v f' w' = Some c3 \<and> var_states c3 = var_states c2)))"
proof -
  have gate: "RenderDebuggerVariable expand ui c v f w = RenderDebuggerVariable expand' ui c v f w \<and>
        (\<exists>c1. RenderDebuggerVariable expand ui c v f w = Some c1 \<and> var_states c1 = var_states c) \<and>
        (\<not> ui_clicked ui \<longrightarrow> RenderDebuggerVariable expand ui c v f w = Some c)"
    if "var_states c (var v) = Some s" "queriedChildren s"
    by (simp add: row_queried [OF that] clicked_var_states)
  have first: "RenderDebuggerVariable expand ui c v f w =
          Some (QueryVariableChildren expand
                 (if ui_clicked ui then RenderDebuggerVariable_clicked c v w else c) (var v))"
    if "var_states c (var v) = Some s" "\<not> queriedChildren s" "\<not> row_filtered ui v f" "ui_open ui"
      "expandable (state_value s) = Expand_Children"
    using that by (simp add: RenderDebuggerVariable_def)
  have later: "queriedChildren s2 \<and>
           (\<exists>c3. RenderDebuggerVariable expand' ui' c2 v f' w' = Some c3 \<and> var_states c3 = var_states c2)"
    if "var_states c (var v) = Some s" "\<not> queriedChildren s" "\<not> row_filtered ui v f" "ui_open ui"
      "expandable (state_value s) = Expand_Children"
      "RenderDebuggerVariable expand ui c v f w = Some c2" "var_states c2 (var v) = Some s2"
    for c2 s2
  proof -
    have "c2 = QueryVariableChildren expand
                 (if ui_clicked ui then RenderDebuggerVariable_clicked c v w else c) (var v)"
      using first [OF that(1-5)] that(6) by simp
    then have q: "queriedChildren s2"
      using that(7) QueryVariableChildren_sets_flag by blast
    show ?thesis
      using q by (simp add: row_queried [OF that(7) q] clicked_var_states)
  qed
  show ?thesis
    using gate first later by blast
qed

theorem queriedChildren_gates_expansion_witness:
  "var_states example_object_cache (var example_object_view) = Some example_object_state \<and>
   \<not> queriedChildren example_object_state \<and>
   children example_object_state = [] \<and>
   RenderDebuggerVariable example_expand example_open_row example_object_cache example_object_view
     None False = Some example_expanded_cache \<and>
   (\<exists>s. var_states example_expanded_cache (var example_object_view) = Some s \<and>
        queriedChildren s \<and> children s = [] \<and> entries s = [asIDBVarValue_default]) \<and>
   RenderDebuggerVariable example_expand example_open_row example_expanded_cache example_object_view
     None False = Some example_expanded_cache"
proof -
  let ?s2 = "example_object_state\<lparr>entries := [asIDBVarValue_default], queriedChildren := True\<rparr>"
  have s: "var_states example_object_cache (var example_object_view) = Some example_object_state"
    by (simp add: example_object_cache_def example_object_view_def)
  have q: "\<not> queriedChildren example_object_state \<and> children example_object_state = [] \<and>
      expandable (state_value example_object_state) = Expand_Children"
    by (simp add: example_object_state_def asIDBVarState_default_def)
  have r: "\<not> row_filtered example_open_row example_object_view None \<and> ui_open example_open_row \<and>
      \<not> ui_clicked example_open_row"
    by (simp add: row_filtered_def example_open_row_def)
  have e: "QueryVariableChildren example_expand example_object_cache (var example_object_view) =
      example_expanded_cache"
    by (simp add: QueryVariableChildren_def example_expand_def example_object_cache_def
        example_object_view_def example_expanded_cache_def example_object_state_def
        asIDBVarState_default_def)
  have first: "RenderDebuggerVariable example_expand example_open_row example_object_cache
      example_object_view None False = Some example_expanded_cache"
    using s q r e
      queriedChildren_gates_expansion [where c = example_object_cache and v = example_object_view
        and s = example_object_state and expand = example_expand and ui = example_open_row
        and f = None and w = False]
    by simp
  have s2: "var_states example_expanded_cache (var example_object_view) = Some ?s2"
    by (simp add: example_expanded_cache_def example_object_view_def)
  have q2: "queriedChildren ?s2 \<and> children ?s2 = [] \<and> entries ?s2 = [asIDBVarValue_default]"
    by (simp add: example_object_state_def asIDBVarState_default_def)
  have second: "RenderDebuggerVariable example_expand example_open_row example_expanded_cache
      example_object_view None False = Some example_expanded_cache"
    using s2 q2 r
      queriedChildren_gates_expansion [where c = example_expanded_cache and v = example_object_view
        and s = ?s2 and expand = example_expand and ui = example_open_row
        and f = None and w = False]
    by simp
  show ?thesis
    using s q first s2 q2 second by blast
qed

subsection \<open>The watch list\<close>

lemma std_find_found:
  "u \<in> set xs \<Longrightarrow> eq u v \<Longrightarrow> std_find eq xs v < length xs \<and> eq (xs ! std_find eq xs v) v"
  by (induction xs) auto

lemma std_find_first: "i < std_find eq xs v \<Longrightarrow> \<not> eq (xs ! i) v"
proof (induction xs arbitrary: i)
  case Nil
  then show ?case by simp
next
  case (Cons x xs)
  then show ?case by (cases i) (auto split: if_splits)
qed

lemma length_erase: "pos < length xs \<Longrightarrow> Suc (length (erase xs pos)) = length xs"
  by (auto simp: erase_def)

lemma erase_keeps:
  assumes "u \<in> set xs" "pos < length xs" "xs ! pos \<noteq> u"
  shows "u \<in> set (erase xs pos)"
proof -
  from assms(1) obtain j where j: "j < length xs" "xs ! j = u"
    by (auto simp: in_set_conv_nth)
  with assms(3) have "j \<noteq> pos" by auto
  then consider "j < pos" | "pos < j" by linarith
  then show ?thesis
  proof cases
    case 1
    then have "u \<in> set (take pos xs)"
      using j by (auto simp: in_set_conv_nth intro!: exI [of _ j])
    then show ?thesis by (simp add: erase_def)
  next
    case 2
    then have "u \<in> set (drop (Suc pos) xs)"
      using j by (auto simp: in_set_conv_nth intro!: exI [of _ "j - Suc pos"])
    then show ?thesis by (simp add: erase_def)
  qed
qed

lemma watch_remove_found:
  assumes "u \<in> set (watch c)" "asIDBVarView_eq u v"
  shows "watch (watch_remove c v) = erase (watch c) (std_find asIDBVarView_eq (watch c) v)"
    and "removeFromWatch (watch_remove c v) = length (watch (watch_remove c v))"
    and "var_states (watch_remove c v) = var_states c"
  using std_find_found [of u "watch c" asIDBVarView_eq v] assms
  by (auto simp: watch_remove_def RenderWatch_erase_def RenderDebuggerVariable_clicked_def Let_def)

text \<open>
  C8. Drawing a right-clicked row whose view refers to a state of the cache runs
  the right-click block on that view. A right-click on a row outside the watch
  window, with no removal pending, appends the view to the watch list and changes
  no state. A right-click on a row
  of the watch window whose view equals an entry of the list, followed by the end
  of \<^verbatim>\<open>RenderWatch\<close>, erases one position: the first whose entry has the name and the
  state of the view. The list is one shorter, the states are untouched, and every
  entry that refers to the same state under another name is still in the list.
\<close>

theorem watch_add_and_remove:
  "(var_states c (var v) = Some s \<and> \<not> row_filtered ui v f \<and> ui_clicked ui \<and> \<not> ui_open ui \<longrightarrow>
      RenderDebuggerVariable expand ui c v f w = Some (RenderDebuggerVariable_clicked c v w)) \<and>
   (removeFromWatch c = length (watch c) \<longrightarrow>
      watch (RenderDebuggerVariable_clicked c v False) = watch c @ [v] \<and>
      removeFromWatch (RenderDebuggerVariable_clicked c v False) =
        length (watch (RenderDebuggerVariable_clicked c v False)) \<and>
      var_states (RenderDebuggerVariable_clicked c v False) = var_states c) \<and>
   (u \<in> set (watch c) \<and> asIDBVarView_eq u v \<longrightarrow>
      std_find asIDBVarView_eq (watch c) v < length (watch c) \<and>
      name (watch c ! std_find asIDBVarView_eq (watch c) v) = name v \<and>
      var (watch c ! std_find asIDBVarView_eq (watch c) v) = var v \<and>
      (\<forall>i < std_find asIDBVarView_eq (watch c) v. \<not> asIDBVarView_eq (watch c ! i) v) \<and>
      watch (watch_remove c v) = erase (watch c) (std_find asIDBVarView_eq (watch c) v) \<and>
      Suc (length (watch (watch_remove c v))) = length (watch c) \<and>
      removeFromWatch (watch_remove c v) = length (watch (watch_remove c v)) \<and>
      var_states (watch_remove c v) = var_states c \<and>
      (\<forall>w \<in> set (watch c). var w = var v \<and> name w \<noteq> name v \<longrightarrow> w \<in> set (watch (watch_remove c v))))"
proof -
  have row: "RenderDebuggerVariable expand ui c v f w = Some (RenderDebuggerVariable_clicked c v w)"
    if "var_states c (var v) = Some s \<and> \<not> row_filtered ui v f \<and> ui_clicked ui \<and> \<not> ui_open ui"
    using that by (simp add: RenderDebuggerVariable_def)
  have add: "watch (RenderDebuggerVariable_clicked c v False) = watch c @ [v] \<and>
      removeFromWatch (RenderDebuggerVariable_clicked c v False) =
        length (watch (RenderDebuggerVariable_clicked c v False)) \<and>
      var_states (RenderDebuggerVariable_clicked c v False) = var_states c"
    if "removeFromWatch c = length (watch c)"
    using that by (simp add: RenderDebuggerVariable_clicked_def)
  have remove: "std_find asIDBVarView_eq (watch c) v < length (watch c) \<and>
      name (watch c ! std_find asIDBVarView_eq (watch c) v) = name v \<and>
      var (watch c ! std_find asIDBVarView_eq (watch c) v) = var v \<and>
      (\<forall>i < std_find asIDBVarView_eq (watch c) v. \<not> asIDBVarView_eq (watch c ! i) v) \<and>
      watch (watch_remove c v) = erase (watch c) (std_find asIDBVarView_eq (watch c) v) \<and>
      Suc (length (watch (watch_remove c v))) = length (watch c) \<and>
      removeFromWatch (watch_remove c v) = length (watch (watch_remove c v)) \<and>
      var_states (watch_remove c v) = var_states c \<and>
      (\<forall>w \<in> set (watch c). var w = var v \<and> name w \<noteq> name v \<longrightarrow> w \<in> set (watch (watch_remove c v)))"
    if mem: "u \<in> set (watch c)" and eq: "asIDBVarView_eq u v"
  proof -
    let ?p = "std_find asIDBVarView_eq (watch c) v"
    have p: "?p < length (watch c)" and at: "asIDBVarView_eq (watch c ! ?p) v"
      using std_find_found [OF mem, of asIDBVarView_eq v] eq by auto
    have w: "watch (watch_remove c v) = erase (watch c) ?p"
      by (rule watch_remove_found(1) [OF mem eq])
    have others: "w \<in> set (watch (watch_remove c v))"
      if "w \<in> set (watch c)" "var w = var v" "name w \<noteq> name v" for w
    proof -
      have "watch c ! ?p \<noteq> w"
        using at that(3) by (auto simp: asIDBVarView_eq_def)
      then show ?thesis
        using erase_keeps [OF that(1) p] by (simp add: w)
    qed
    show ?thesis
      using p at w others length_erase [OF p] watch_remove_found(2,3) [OF mem eq]
      by (auto simp: asIDBVarView_eq_def [of "watch c ! ?p" v] dest: std_find_first)
  qed
  show ?thesis
    using row add remove by blast
qed

theorem watch_add_and_remove_witness:
  "removeFromWatch example_watch_cache = length (watch example_watch_cache) \<and>
   watch (RenderDebuggerVariable_clicked example_watch_cache example_view_x False) =
     [example_view_x, example_view_globalX, example_view_x] \<and>
   example_view_globalX \<in> set (watch example_watch_cache) \<and>
   asIDBVarView_eq example_view_globalX example_view_globalX \<and>
   var example_view_x = var example_view_globalX \<and>
   name example_view_x \<noteq> name example_view_globalX \<and>
   RenderDebuggerVariable example_expand \<lparr>ui_opened = False, ui_open = False, ui_clicked = True\<rparr>
     example_watch_cache example_view_x None False =
     Some (RenderDebuggerVariable_clicked example_watch_cache example_view_x False) \<and>
   std_find asIDBVarView_eq (watch example_watch_cache) example_view_globalX = 1 \<and>
   watch (watch_remove example_watch_cache example_view_globalX) = [example_view_x] \<and>
   example_view_x \<in> set (watch (watch_remove example_watch_cache example_view_globalX))"
proof -
  have w: "watch example_watch_cache = [example_view_x, example_view_globalX]"
    and r: "removeFromWatch example_watch_cache = length (watch example_watch_cache)"
    by (simp_all add: example_watch_cache_def)
  have names: "var example_view_x = var example_view_globalX \<and>
      name example_view_x \<noteq> name example_view_globalX"
    by (simp add: example_view_x_def example_view_globalX_def)
  have mem: "example_view_globalX \<in> set (watch example_watch_cache) \<and>
      asIDBVarView_eq example_view_globalX example_view_globalX"
    by (simp add: w asIDBVarView_eq_def)
  have memx: "example_view_x \<in> set (watch example_watch_cache)"
    by (simp add: w)
  have pos: "std_find asIDBVarView_eq (watch example_watch_cache) example_view_globalX = 1"
    using names by (simp add: w asIDBVarView_eq_def)
  have er: "erase [example_view_x, example_view_globalX] 1 = [example_view_x]"
    by (simp add: erase_def)
  have st: "var_states example_watch_cache (var example_view_x) = Some asIDBVarState_default \<and>
      \<not> row_filtered \<lparr>ui_opened = False, ui_open = False, ui_clicked = True\<rparr> example_view_x None \<and>
      ui_clicked \<lparr>ui_opened = False, ui_open = False, ui_clicked = True\<rparr> \<and>
      \<not> ui_open \<lparr>ui_opened = False, ui_open = False, ui_clicked = True\<rparr>"
    by (simp add: example_watch_cache_def example_view_x_def row_filtered_def)
  have row: "RenderDebuggerVariable example_expand \<lparr>ui_opened = False, ui_open = False, ui_clicked = True\<rparr>
      example_watch_cache example_view_x None False =
      Some (RenderDebuggerVariable_clicked example_watch_cache example_view_x False)"
    using st watch_add_and_remove [where c = example_watch_cache and v = example_view_x
        and s = asIDBVarState_default and f = None and w = False and expand = example_expand
        and ui = "\<lparr>ui_opened = False, ui_open = False, ui_clicked = True\<rparr>"]
    by blast
  have add: "watch (RenderDebuggerVariable_clicked example_watch_cache example_view_x False) =
      [example_view_x, example_view_globalX, example_view_x]"
    using r w watch_add_and_remove [where c = example_watch_cache and v = example_view_x]
    by simp
  have remove: "watch (watch_remove example_watch_cache example_view_globalX) = [example_view_x] \<and>
      example_view_x \<in> set (watch (watch_remove example_watch_cache example_view_globalX))"
    using mem memx names pos er w
      watch_add_and_remove [where c = example_watch_cache and v = example_view_globalX
        and u = example_view_globalX]
    by simp
  show ?thesis
    using r row add mem names pos remove by blast
qed

subsection \<open>The reference to the context\<close>

lemma apply_op_ctx: "ctx (apply_op c x) = ctx c"
  by (cases x)
    (auto simp: AddVarState_def RenderDebuggerVariable_clicked_def RenderWatch_erase_def Let_def
      split: option.splits)

lemma foldl_apply_op_ctx: "ctx (foldl apply_op c ops) = ctx c"
  by (induction ops arbitrary: c) (simp_all add: apply_op_ctx)

text \<open>
  C9. Constructing a cache on a context adds one reference to that context and
  touches nothing else. Whatever operations run on the cache, its context
  pointer stays the one it was constructed on. Destroying the cache then leaves
  the reference count of the context where it was before the construction, with
  the line callback cleared, and every other context as it was.
\<close>

theorem asIDBCache_owns_one_reference:
  "(case asIDBCache_ctor p rt of (c, rt1) \<Rightarrow>
      ctx c = p \<and>
      refCount (rt1 p) = refCount (rt p) + 1 \<and>
      rt1 = rt(p := AddRef (rt p)) \<and>
      ctx (foldl apply_op c ops) = p \<and>
      asIDBCache_dtor (foldl apply_op c ops) rt1 = rt(p := (rt p)\<lparr>lineCallback := False\<rparr>)) \<and>
   refCount (episode p ops rt p) = refCount (rt p) \<and>
   \<not> lineCallback (episode p ops rt p) \<and>
   (q \<noteq> p \<longrightarrow> episode p ops rt q = rt q)"
proof -
  obtain c rt1 where ctor: "asIDBCache_ctor p rt = (c, rt1)"
    by (cases "asIDBCache_ctor p rt")
  then have c: "ctx c = p" and rt1: "rt1 = rt(p := AddRef (rt p))"
    by (auto simp: asIDBCache_ctor_def)
  have kept: "ctx (foldl apply_op c ops) = p"
    by (simp add: foldl_apply_op_ctx c)
  have dtor: "asIDBCache_dtor (foldl apply_op c ops) rt1 = rt(p := (rt p)\<lparr>lineCallback := False\<rparr>)"
    by (simp add: asIDBCache_dtor_def kept rt1 AddRef_def Release_def ClearLineCallback_def)
  show ?thesis
    using ctor c rt1 kept dtor by (simp add: episode_def AddRef_def)
qed

theorem asIDBCache_owns_one_reference_witness:
  "(1 :: nat) \<noteq> 0 \<and>
   refCount (example_contexts 0) = 1 \<and>
   refCount (snd (asIDBCache_ctor 0 example_contexts) 0) = 2 \<and>
   refCount (episode 0 [Op_AddVarState example_addr, Op_Clicked example_view_x False,
      Op_Clicked example_view_x True, Op_Erase] example_contexts 0) = 1 \<and>
   \<not> lineCallback (episode 0 [Op_AddVarState example_addr, Op_Clicked example_view_x False,
      Op_Clicked example_view_x True, Op_Erase] example_contexts 0) \<and>
   episode 0 [Op_AddVarState example_addr, Op_Clicked example_view_x False,
      Op_Clicked example_view_x True, Op_Erase] example_contexts 1 = example_contexts 1"
  using asIDBCache_owns_one_reference [where p = 0 and rt = example_contexts and q = 1
      and ops = "[Op_AddVarState example_addr, Op_Clicked example_view_x False,
        Op_Clicked example_view_x True, Op_Erase]"]
  by (simp add: example_contexts_def asIDBCache_ctor_def AddRef_def)

subsection \<open>The key of the locals map\<close>

lemma sint_mod_256: "sint (w :: c_int) mod 256 = uint w mod 256"
proof -
  have "take_bit 8 (sint w) = take_bit 8 (uint w)"
    by (simp add: sint_uint take_bit_signed_take_bit)
  then show ?thesis by (simp add: take_bit_eq_mod)
qed

lemma uint_ucast_offset: "uint (ucast (w :: c_int) :: uint8_t) = sint w mod 256"
  by (simp add: unsigned_ucast_eq take_bit_eq_mod sint_mod_256)

lemma ucast_offset_cong:
  assumes "256 dvd (sint (a :: c_int) - sint (b :: c_int))"
  shows "(ucast a :: uint8_t) = ucast b"
proof -
  from assms have "sint a mod 256 = sint b mod 256"
    by (simp add: mod_eq_dvd_iff)
  then have "uint (ucast a :: uint8_t) = uint (ucast b :: uint8_t)"
    by (simp add: uint_ucast_offset)
  then show ?thesis by (rule word_uint_eqI)
qed

text \<open>
  C10. The key of the locals map keeps the stack offset in 8 bits: the offset
  field of \<^verbatim>\<open>asIDBLocalKey(offset, kind)\<close> is the offset modulo 256. Two keys of the
  same kind whose offsets differ by a multiple of 256 are equal under
  \<^verbatim>\<open>operator==\<close>, are the same key, have the same hash whatever the standard
  hashes are, and name one entry of the locals map: a lookup finds the same entry
  under both, and what is stored under one is found under the other.
\<close>

theorem asIDBLocalKey_offset_wraps:
  "uint (offset (asIDBLocalKey_init off t)) = sint off mod 256 \<and>
   (256 dvd (sint a - sint b) \<longrightarrow>
      asIDBLocalKey_eq (asIDBLocalKey_init a t) (asIDBLocalKey_init b t) \<and>
      asIDBLocalKey_init a t = asIDBLocalKey_init b t \<and>
      hash_asIDBLocalKey hu hl hs (asIDBLocalKey_init a t) =
        hash_asIDBLocalKey hu hl hs (asIDBLocalKey_init b t) \<and>
      locals c (asIDBLocalKey_init a t) = locals c (asIDBLocalKey_init b t) \<and>
      ((locals c)(asIDBLocalKey_init a t \<mapsto> vs)) (asIDBLocalKey_init b t) = Some vs)"
proof -
  have first: "uint (offset (asIDBLocalKey_init off t)) = sint off mod 256"
    by (simp add: asIDBLocalKey_init_def uint_ucast_offset)
  have second: "asIDBLocalKey_init a t = asIDBLocalKey_init b t"
    if "256 dvd (sint a - sint b)"
    using ucast_offset_cong [OF that] by (simp add: asIDBLocalKey_init_def)
  show ?thesis
    using first second by (auto simp: asIDBLocalKey_eq_def)
qed

theorem asIDBLocalKey_offset_wraps_witness:
  "uint (offset (asIDBLocalKey_init 300 Variable)) = 44 \<and>
   256 dvd (sint (257 :: c_int) - sint (1 :: c_int)) \<and>
   asIDBLocalKey_eq (asIDBLocalKey_init 257 Variable) (asIDBLocalKey_init 1 Variable) \<and>
   asIDBLocalKey_init 257 Variable = asIDBLocalKey_init 1 Variable \<and>
   hash_asIDBLocalKey (ucast :: uint8_t \<Rightarrow> 64 word) (\<lambda>_. 0) (\<lambda>h. h) (asIDBLocalKey_init 257 Variable) =
     hash_asIDBLocalKey ucast (\<lambda>_. 0) (\<lambda>h. h) (asIDBLocalKey_init 1 Variable) \<and>
   ((locals example_cache)(asIDBLocalKey_init 257 Variable \<mapsto> [])) (asIDBLocalKey_init 1 Variable) = Some []"
proof -
  have h: "256 dvd (sint (257 :: c_int) - sint (1 :: c_int))" by simp
  show ?thesis
    using h asIDBLocalKey_offset_wraps
      [of 300 Variable 257 1 "ucast :: uint8_t \<Rightarrow> 64 word" "\<lambda>_. 0" "\<lambda>h. h" example_cache "[]"]
    by (simp add: asIDBLocalKey_eq_def)
qed

end
